theory Spec2Isabelle
  imports Main
begin

section \<open>Data model (frontend/src/api/types.ts)\<close>

text \<open>
  The string-literal unions \<^verbatim>\<open>TicketStatus\<close> and \<^verbatim>\<open>TicketPriority\<close> are datatypes;
  \<open>statusText\<close> gives back the string each status is at run time.
\<close>

datatype TicketStatus = Plan | Todo | InProgress | Review | Done

datatype TicketPriority = Critical | High | Medium | Low

fun statusText :: "TicketStatus \<Rightarrow> string" where
  "statusText Plan = ''Plan''"
| "statusText Todo = ''Todo''"
| "statusText InProgress = ''In Progress''"
| "statusText Review = ''Review''"
| "statusText Done = ''Done''"

text \<open>
  \<^verbatim>\<open>Ticket\<close>. Its \<^verbatim>\<open>id\<close> is the field \<open>Ticket_id\<close> (\<open>id\<close> is HOL's identity function);
  nullable fields are options, timestamps stay the ISO strings they are in the source.
\<close>

record Ticket =
  Ticket_id :: int
  title :: string
  description :: string
  status :: TicketStatus
  assignee :: string
  priority :: TicketPriority
  agent_session_key :: "string option"
  archived_at :: "string option"
  created_at :: string
  updated_at :: string

record TicketComment =
  comment_id :: int
  comment_ticket_id :: int
  author :: string
  content :: string
  comment_created_at :: string

record TicketEvent =
  event_id :: int
  event_ticket_id :: int
  event_type :: string
  actor :: "string option"
  details :: string
  event_created_at :: string

record CreateTicketRequest =
  req_title :: string
  req_description :: "string option"
  req_assignee :: "string option"
  req_priority :: "TicketPriority option"

record PickupResult =
  attempted :: bool
  spawned :: bool
  agent_id :: "string option"
  session_key :: "string option"
  run_id :: "string option"
  reason :: "string option"

record MoveTicketResponse =
  response_ok :: bool
  ticket :: Ticket
  from_status :: TicketStatus
  to_status :: TicketStatus
  pickup :: PickupResult
  warnings :: "string list"

section \<open>JavaScript containers and number printing\<close>

text \<open>
  A JavaScript \<^verbatim>\<open>Map\<close> keeps one entry per key, in insertion order: \<^verbatim>\<open>set\<close> on a key that
  is present replaces the value where it stands, on a new key it appends; \<^verbatim>\<open>delete\<close>
  removes the entry. It is modelled as the list of its entries.
\<close>

type_synonym ('k, 'v) jsmap = "('k \<times> 'v) list"

fun Map_set :: "'k \<Rightarrow> 'v \<Rightarrow> ('k, 'v) jsmap \<Rightarrow> ('k, 'v) jsmap" where
  "Map_set k v [] = [(k, v)]"
| "Map_set k v ((k', v') # m) = (if k' = k then (k, v) # m else (k', v') # Map_set k v m)"

definition Map_get :: "('k, 'v) jsmap \<Rightarrow> 'k \<Rightarrow> 'v option" where
  "Map_get m k = map_of m k"

definition Map_has :: "('k, 'v) jsmap \<Rightarrow> 'k \<Rightarrow> bool" where
  "Map_has m k = (map_of m k \<noteq> None)"

definition Map_delete :: "'k \<Rightarrow> ('k, 'v) jsmap \<Rightarrow> ('k, 'v) jsmap" where
  "Map_delete k m = filter (\<lambda>e. fst e \<noteq> k) m"

definition Map_values :: "('k, 'v) jsmap \<Rightarrow> 'v list" where
  "Map_values m = map snd m"

text \<open>A JavaScript \<^verbatim>\<open>Set\<close>, as the list of its members in insertion order.\<close>

type_synonym 'a jsset = "'a list"

definition Set_has :: "'a jsset \<Rightarrow> 'a \<Rightarrow> bool" where
  "Set_has s x = (x \<in> set s)"

definition Set_add :: "'a \<Rightarrow> 'a jsset \<Rightarrow> 'a jsset" where
  "Set_add x s = (if x \<in> set s then s else s @ [x])"

definition Set_delete :: "'a \<Rightarrow> 'a jsset \<Rightarrow> 'a jsset" where
  "Set_delete x s = filter (\<lambda>y. y \<noteq> x) s"

text \<open>
  Ticket ids are JavaScript numbers holding integers; the model uses \<open>int\<close>. Inside the
  safe range (magnitude below \<open>2 ^ 53\<close>) a template literal prints such a number as its
  decimal digits with a leading minus sign when negative, which is \<open>showInt\<close>
  (\<open>showDigits\<close> prints a number that is not negative). Outside the safe range the
  code prints the shortest digits that read back as the same double, and an exponent
  form from \<open>10 ^ 21\<close> on; \<open>showInt\<close> stands for the code inside the safe range only,
  and the round trip of ticket item ids is stated with that bound.
\<close>

definition digitChar :: "nat \<Rightarrow> char" where
  "digitChar d = char_of (48 + d)"

function showDigits :: "int \<Rightarrow> string" where
  "showDigits n =
     (if n < 10 then [digitChar (nat n)]
      else showDigits (n div 10) @ [digitChar (nat (n mod 10))])"
  by pat_completeness auto
termination
  by (relation "measure nat") auto

definition showInt :: "int \<Rightarrow> string" where
  "showInt i = (if i < 0 then CHR ''-'' # showDigits (- i) else showDigits i)"

section \<open>Move warnings (frontend/src/App.tsx, collectMoveWarnings)\<close>

text \<open>
  \<^verbatim>\<open>response.pickup.reason\<close> is an optional string; in a condition it counts as true when it
  is present and not the empty string.
\<close>

fun truthyString :: "string option \<Rightarrow> bool" where
  "truthyString None = False"
| "truthyString (Some s) = (s \<noteq> [])"

definition collectMoveWarnings :: "MoveTicketResponse \<Rightarrow> string list" where
  "collectMoveWarnings response =
     (let ws = warnings response in
      if \<not> spawned (pickup response) \<and> truthyString (reason (pickup response))
           \<and> \<not> (the (reason (pickup response)) \<in> set ws)
      then ws @ [the (reason (pickup response))]
      else ws)"

section \<open>Realtime payloads (frontend/src/App.tsx, shouldRefetchFromRealtimePayload)\<close>

text \<open>
  The payload is whatever \<^verbatim>\<open>JSON.parse\<close> returned: a JSON value. An object is the list of
  its own properties, one per key. The function looks at a number only to test whether
  it is zero, so numbers are integers here.
\<close>

datatype jsvalue =
    JNull
  | JBool bool
  | JNumber int
  | JString string
  | JArray "jsvalue list"
  | JObject "(string \<times> jsvalue) list"

fun truthy :: "jsvalue \<Rightarrow> bool" where
  "truthy JNull = False"
| "truthy (JBool b) = b"
| "truthy (JNumber n) = (n \<noteq> 0)"
| "truthy (JString s) = (s \<noteq> [])"
| "truthy (JArray xs) = True"
| "truthy (JObject ps) = True"

fun typeof :: "jsvalue \<Rightarrow> string" where
  "typeof JNull = ''object''"
| "typeof (JBool b) = ''boolean''"
| "typeof (JNumber n) = ''number''"
| "typeof (JString s) = ''string''"
| "typeof (JArray xs) = ''object''"
| "typeof (JObject ps) = ''object''"

text \<open>
  Reading the property \<^verbatim>\<open>type\<close>: \<open>None\<close> is \<^verbatim>\<open>undefined\<close>. A parsed array has indices and
  a length but no property of that name.
\<close>

fun typeProperty :: "jsvalue \<Rightarrow> jsvalue option" where
  "typeProperty (JObject ps) = map_of ps ''type''"
| "typeProperty v = None"

definition REALTIME_REFRESH_EVENT_TYPES :: "string list" where
  "REALTIME_REFRESH_EVENT_TYPES =
     [''ticket_created'', ''ticket_updated'', ''ticket_moved'', ''ticket_archived'',
      ''comment_added'', ''ticket_event'']"

definition shouldRefetchFromRealtimePayload :: "jsvalue \<Rightarrow> bool" where
  "shouldRefetchFromRealtimePayload payload =
     (if \<not> truthy payload \<or> typeof payload \<noteq> ''object'' then False
      else (case typeProperty payload of
              Some (JString ty) \<Rightarrow> ty \<in> set REALTIME_REFRESH_EVENT_TYPES
            | _ \<Rightarrow> False))"

section \<open>The dashboard's board (frontend/src/App.tsx, DashboardPage)\<close>

text \<open>
  \<^verbatim>\<open>mergeTickets\<close> fills one \<^verbatim>\<open>Map\<close> from the pending tickets, then the server tickets, then
  the entries of the optimistic map (stored under the entry's key, not under the
  ticket's id), and returns its values.
\<close>

definition mergeTickets ::
  "Ticket list \<Rightarrow> Ticket list \<Rightarrow> (int, Ticket) jsmap \<Rightarrow> Ticket list" where
  "mergeTickets serverTickets pendingTickets optimisticTickets =
     (let m0 = fold (\<lambda>t m. Map_set (Ticket_id t) t m) pendingTickets [];
          m1 = fold (\<lambda>t m. Map_set (Ticket_id t) t m) serverTickets m0;
          m2 = fold (\<lambda>e m. Map_set (fst e) (snd e) m) optimisticTickets m1
      in Map_values m2)"

text \<open>
  The state \<^verbatim>\<open>moveTicket\<close> reads and writes: the tickets query's data (\<open>None\<close> is \<^verbatim>\<open>null\<close>),
  the shell's pending tickets, the three pieces of board state, and the notices passed
  to \<^verbatim>\<open>notify\<close>, oldest first.
\<close>

datatype ShellNoticeTone = ToneSuccess | ToneWarning | ToneError

record Dashboard =
  ticketsData :: "Ticket list option"
  pendingTickets :: "Ticket list"
  optimisticTickets :: "(int, Ticket) jsmap"
  movingTicketIds :: "int jsset"
  warningByTicketId :: "(int, string list) jsmap"
  notices :: "(ShellNoticeTone \<times> string) list"

definition notify :: "ShellNoticeTone \<Rightarrow> string \<Rightarrow> Dashboard \<Rightarrow> Dashboard" where
  "notify tone message d = d\<lparr>notices := notices d @ [(tone, message)]\<rparr>"

definition boardTickets :: "Dashboard \<Rightarrow> Ticket list" where
  "boardTickets d =
     filter (\<lambda>t. archived_at t = None)
       (mergeTickets (case ticketsData d of None \<Rightarrow> [] | Some ts \<Rightarrow> ts)
          (pendingTickets d) (optimisticTickets d))"

definition ticketById :: "Dashboard \<Rightarrow> (int, Ticket) jsmap" where
  "ticketById d = fold (\<lambda>t m. Map_set (Ticket_id t) t m) (boardTickets d) []"

text \<open>
  \<^verbatim>\<open>moveTicket\<close> is an async function. Its run is cut at the two awaits: the part up to the
  move request (\<open>moveTicket_begin\<close>, which returns the request it issues, if any), the
  part after a fulfilled request up to the refetch (\<open>moveTicket_fulfilled\<close>), the part
  after the refetch (\<open>moveTicket_refetched\<close>), the \<^verbatim>\<open>catch\<close> block
  (\<open>moveTicket_rejected\<close>) and the \<^verbatim>\<open>finally\<close> block (\<open>moveTicket_finally\<close>). The request's
  outcome and the refetched data are inputs. No other handler runs in between.
\<close>

record MoveTicketCall =
  call_ticketId :: int
  call_status :: TicketStatus
  call_actor :: string

datatype thrown = ThrownError string | ThrownOther

datatype 'a settled = Fulfilled 'a | Rejected thrown

fun errorMessage :: "thrown \<Rightarrow> string" where
  "errorMessage (ThrownError m) = m"
| "errorMessage ThrownOther = ''Request failed''"

definition moveTicket_begin ::
  "Dashboard \<Rightarrow> int \<Rightarrow> TicketStatus \<Rightarrow> string \<Rightarrow> Dashboard \<times> MoveTicketCall option" where
  "moveTicket_begin d ticketId targetStatus now =
     (case Map_get (ticketById d) ticketId of
        None \<Rightarrow> (d, None)
      | Some currentTicket \<Rightarrow>
          if Ticket_id currentTicket < 0 then
            (notify ToneWarning ''Wait for ticket creation to finish before moving it.'' d, None)
          else if status currentTicket = targetStatus then (d, None)
          else if Set_has (movingTicketIds d) ticketId then (d, None)
          else
            (let optimisticTicket = currentTicket\<lparr>status := targetStatus, updated_at := now\<rparr> in
             (d\<lparr>optimisticTickets := Map_set ticketId optimisticTicket (optimisticTickets d),
                movingTicketIds := Set_add ticketId (movingTicketIds d)\<rparr>,
              Some \<lparr>call_ticketId = ticketId, call_status = targetStatus,
                     call_actor = ''User''\<rparr>)))"

definition moveTicket_fulfilled ::
  "Dashboard \<Rightarrow> int \<Rightarrow> TicketStatus \<Rightarrow> MoveTicketResponse \<Rightarrow> Dashboard" where
  "moveTicket_fulfilled d ticketId targetStatus response =
     (let d1 = d\<lparr>optimisticTickets := Map_set ticketId (ticket response) (optimisticTickets d)\<rparr>;
          warningMessages = collectMoveWarnings response
      in if length warningMessages > 0 then
           notify ToneWarning
             (''Moved TASK-'' @ showInt ticketId @ '' with warning: '' @ hd warningMessages)
             (d1\<lparr>warningByTicketId := Map_set ticketId warningMessages (warningByTicketId d1)\<rparr>)
         else
           notify ToneSuccess
             (''Moved TASK-'' @ showInt ticketId @ '' to '' @ statusText targetStatus @ ''.'')
             (d1\<lparr>warningByTicketId :=
                   (if \<not> Map_has (warningByTicketId d1) ticketId then warningByTicketId d1
                    else Map_delete ticketId (warningByTicketId d1))\<rparr>))"

text \<open>
  \<^verbatim>\<open>ticketsQuery.refetch\<close> does not throw: it stores the fetched list, or keeps the old data
  when the fetch fails or is aborted (\<open>None\<close>).
\<close>

definition moveTicket_refetched :: "Dashboard \<Rightarrow> int \<Rightarrow> Ticket list option \<Rightarrow> Dashboard" where
  "moveTicket_refetched d ticketId refetched =
     (let d1 = d\<lparr>ticketsData := (case refetched of None \<Rightarrow> ticketsData d | Some ts \<Rightarrow> Some ts)\<rparr>
      in d1\<lparr>optimisticTickets :=
               (if \<not> Map_has (optimisticTickets d1) ticketId then optimisticTickets d1
                else Map_delete ticketId (optimisticTickets d1))\<rparr>)"

definition moveTicket_rejected :: "Dashboard \<Rightarrow> int \<Rightarrow> thrown \<Rightarrow> Dashboard" where
  "moveTicket_rejected d ticketId err =
     notify ToneError (''Move failed for TASK-'' @ showInt ticketId @ '': '' @ errorMessage err)
       (d\<lparr>optimisticTickets :=
            (if \<not> Map_has (optimisticTickets d) ticketId then optimisticTickets d
             else Map_delete ticketId (optimisticTickets d))\<rparr>)"

definition moveTicket_finally :: "Dashboard \<Rightarrow> int \<Rightarrow> Dashboard" where
  "moveTicket_finally d ticketId =
     d\<lparr>movingTicketIds :=
         (if \<not> Set_has (movingTicketIds d) ticketId then movingTicketIds d
          else Set_delete ticketId (movingTicketIds d))\<rparr>"

definition moveTicket ::
  "Dashboard \<Rightarrow> int \<Rightarrow> TicketStatus \<Rightarrow> string \<Rightarrow> MoveTicketResponse settled \<Rightarrow>
     Ticket list option \<Rightarrow> Dashboard \<times> MoveTicketCall option" where
  "moveTicket d ticketId targetStatus now outcome refetched =
     (case moveTicket_begin d ticketId targetStatus now of
        (d1, None) \<Rightarrow> (d1, None)
      | (d1, Some call) \<Rightarrow>
          (moveTicket_finally
             (case outcome of
                Fulfilled response \<Rightarrow>
                  moveTicket_refetched (moveTicket_fulfilled d1 ticketId targetStatus response)
                    ticketId refetched
              | Rejected err \<Rightarrow> moveTicket_rejected d1 ticketId err)
             ticketId,
           Some call))"

section \<open>Creating a ticket (handleCreateTicket, two versions of App.tsx)\<close>

text \<open>
  The part of \<^verbatim>\<open>handleCreateTicket\<close> before its await: it builds the placeholder ticket
  from the request, the clock (\<^verbatim>\<open>Date.now()\<close> and the ISO time) and puts it in front of the
  pending tickets; the result also carries the notice it shows. \<open>handleCreateTicket_App\<close> is
  the function of src/frontend/src/App.tsx, \<open>handleCreateTicket_part_008\<close> that of
  src/unnamed/part_008.
\<close>

definition orElse :: "'a option \<Rightarrow> 'a \<Rightarrow> 'a" where
  "orElse v d = (case v of None \<Rightarrow> d | Some x \<Rightarrow> x)"

definition handleCreateTicket_App ::
  "CreateTicketRequest \<Rightarrow> int \<Rightarrow> string \<Rightarrow> Ticket list \<Rightarrow>
     Ticket \<times> Ticket list \<times> (ShellNoticeTone \<times> string)" where
  "handleCreateTicket_App payload nowMs now existing =
     (let temporaryId = - nowMs;
          temporaryTicket =
            \<lparr>Ticket_id = temporaryId, title = req_title payload,
             description = orElse (req_description payload) [],
             status = Plan,
             assignee = orElse (req_assignee payload) ''Unassigned'',
             priority = orElse (req_priority payload) Medium,
             agent_session_key = None, archived_at = None,
             created_at = now, updated_at = now\<rparr>
      in (temporaryTicket, temporaryTicket # existing,
          (ToneSuccess,
           ''Creating '' @ [CHR 0x22] @ req_title payload @ [CHR 0x22] @ '' in Plan...'')))"

definition handleCreateTicket_part_008 ::
  "CreateTicketRequest \<Rightarrow> int \<Rightarrow> string \<Rightarrow> Ticket list \<Rightarrow>
     Ticket \<times> Ticket list \<times> (ShellNoticeTone \<times> string)" where
  "handleCreateTicket_part_008 payload nowMs now existing =
     (let temporaryId = - nowMs;
          temporaryTicket =
            \<lparr>Ticket_id = temporaryId, title = req_title payload,
             description = orElse (req_description payload) [],
             status = Todo,
             assignee = orElse (req_assignee payload) ''Unassigned'',
             priority = orElse (req_priority payload) Medium,
             agent_session_key = None, archived_at = None,
             created_at = now, updated_at = now\<rparr>
      in (temporaryTicket, temporaryTicket # existing,
          (ToneSuccess,
           ''Creating '' @ [CHR 0x22] @ req_title payload @ [CHR 0x22] @ '' in Todo...'')))"

section \<open>Drag-and-drop identifiers (src/unnamed/part_003)\<close>

definition TICKET_ID_PREFIX :: string where
  "TICKET_ID_PREFIX = ''ticket:''"

definition LANE_ID_PREFIX :: string where
  "LANE_ID_PREFIX = ''lane:''"

definition BOARD_STATUSES :: "TicketStatus list" where
  "BOARD_STATUSES = [Todo, Plan, InProgress, Review, Done]"

definition startsWith :: "string \<Rightarrow> string \<Rightarrow> bool" where
  "startsWith raw prefix = (take (length prefix) raw = prefix)"

definition ticketItemId :: "int \<Rightarrow> string" where
  "ticketItemId ticketId = TICKET_ID_PREFIX @ showInt ticketId"

definition laneDropId :: "TicketStatus \<Rightarrow> string" where
  "laneDropId st = LANE_ID_PREFIX @ statusText st"

text \<open>
  \<^verbatim>\<open>Number(string)\<close>. The string is trimmed of white space; the empty string is 0; a
  literal is \<^verbatim>\<open>0x\<close>, \<^verbatim>\<open>0o\<close> or \<^verbatim>\<open>0b\<close> followed by digits of that radix, or an optional sign
  followed by \<^verbatim>\<open>Infinity\<close> or by decimal digits with an optional fraction and an optional
  exponent; anything else is \<^verbatim>\<open>NaN\<close>. A finite result \<open>JsFinite m e\<close> stands for the exact
  value \<open>m * 10 ^ e\<close>. JavaScript rounds that value to the nearest double (and to
  \<^verbatim>\<open>Infinity\<close> beyond the largest one); the rounding changes nothing when the value is an
  integer of the safe range (magnitude below \<open>2 ^ 53\<close>), which is where \<open>Number\<close> stands
  for the code and where the statements about it are made. For other literals (an
  integer past \<open>2 ^ 53\<close>, more significant digits than a double holds, an exponent past
  the double range) the exact value kept here can differ from the rounded one.
  Characters are code units below 256.
\<close>

datatype jsnumber = JsFinite int int | JsInfinity | JsNaN

definition isWhiteSpace :: "char \<Rightarrow> bool" where
  "isWhiteSpace c = ((of_char c :: nat) \<in> {9, 10, 11, 12, 13, 32, 160})"

definition trim :: "string \<Rightarrow> string" where
  "trim s = rev (dropWhile isWhiteSpace (rev (dropWhile isWhiteSpace s)))"

definition isDigit :: "char \<Rightarrow> bool" where
  "isDigit c = (48 \<le> (of_char c :: nat) \<and> (of_char c :: nat) \<le> 57)"

text \<open>The value of a digit of radix up to 16, \<open>None\<close> for any other character.\<close>

definition digitValue :: "char \<Rightarrow> nat option" where
  "digitValue c =
     (let n = (of_char c :: nat) in
      if 48 \<le> n \<and> n \<le> 57 then Some (n - 48)
      else if 97 \<le> n \<and> n \<le> 102 then Some (n - 87)
      else if 65 \<le> n \<and> n \<le> 70 then Some (n - 55)
      else None)"

definition isRadixDigit :: "nat \<Rightarrow> char \<Rightarrow> bool" where
  "isRadixDigit radix c = (case digitValue c of None \<Rightarrow> False | Some v \<Rightarrow> v < radix)"

definition radixValue :: "int \<Rightarrow> string \<Rightarrow> int" where
  "radixValue radix ds = foldl (\<lambda>acc c. radix * acc + int (orElse (digitValue c) 0)) 0 ds"

definition nonDecimalLiteral :: "string \<Rightarrow> int option" where
  "nonDecimalLiteral t =
     (case t of
        z # x # ds \<Rightarrow>
          if z \<noteq> CHR ''0'' \<or> ds = [] then None
          else if (x = CHR ''x'' \<or> x = CHR ''X'') \<and> list_all (isRadixDigit 16) ds
            then Some (radixValue 16 ds)
          else if (x = CHR ''o'' \<or> x = CHR ''O'') \<and> list_all (isRadixDigit 8) ds
            then Some (radixValue 8 ds)
          else if (x = CHR ''b'' \<or> x = CHR ''B'') \<and> list_all (isRadixDigit 2) ds
            then Some (radixValue 2 ds)
          else None
      | _ \<Rightarrow> None)"

text \<open>The exponent part: nothing (exponent 0), or \<^verbatim>\<open>e\<close> or \<^verbatim>\<open>E\<close>, an optional sign and digits.\<close>

definition exponentPart :: "string \<Rightarrow> int option" where
  "exponentPart r =
     (case r of
        [] \<Rightarrow> Some 0
      | c # r1 \<Rightarrow>
          if c \<noteq> CHR ''e'' \<and> c \<noteq> CHR ''E'' then None
          else (case r1 of
                  [] \<Rightarrow> None
                | s # r2 \<Rightarrow>
                    if s = CHR ''+'' \<and> r2 \<noteq> [] \<and> list_all isDigit r2
                      then Some (radixValue 10 r2)
                    else if s = CHR ''-'' \<and> r2 \<noteq> [] \<and> list_all isDigit r2
                      then Some (- radixValue 10 r2)
                    else if list_all isDigit r1 then Some (radixValue 10 r1)
                    else None))"

definition unsignedDecimalLiteral :: "string \<Rightarrow> jsnumber" where
  "unsignedDecimalLiteral s =
     (if s = ''Infinity'' then JsInfinity
      else
        (let ip = takeWhile isDigit s;
             r1 = dropWhile isDigit s;
             hasDot = (r1 \<noteq> [] \<and> hd r1 = CHR ''.'');
             fp = (if hasDot then takeWhile isDigit (tl r1) else []);
             r2 = (if hasDot then dropWhile isDigit (tl r1) else r1)
         in if ip = [] \<and> fp = [] then JsNaN
            else (case exponentPart r2 of
                    None \<Rightarrow> JsNaN
                  | Some e \<Rightarrow> JsFinite (radixValue 10 (ip @ fp)) (e - int (length fp)))))"

fun negate :: "jsnumber \<Rightarrow> jsnumber" where
  "negate (JsFinite m e) = JsFinite (- m) e"
| "negate JsInfinity = JsInfinity"
| "negate JsNaN = JsNaN"

definition Number :: "string \<Rightarrow> jsnumber" where
  "Number s =
     (let t = trim s in
      case t of
        [] \<Rightarrow> JsFinite 0 0
      | c # rest \<Rightarrow>
          (case nonDecimalLiteral t of
             Some n \<Rightarrow> JsFinite n 0
           | None \<Rightarrow>
               if c = CHR ''+'' then unsignedDecimalLiteral rest
               else if c = CHR ''-'' then negate (unsignedDecimalLiteral rest)
               else unsignedDecimalLiteral t))"

text \<open>
  \<^verbatim>\<open>Number.isInteger\<close>, and the integer a finite integral value is. (Both infinities fail
  the test, so \<open>negate\<close> need not tell them apart.)
\<close>

fun isInteger :: "jsnumber \<Rightarrow> bool" where
  "isInteger (JsFinite m e) = (0 \<le> e \<or> m mod 10 ^ nat (- e) = 0)"
| "isInteger JsInfinity = False"
| "isInteger JsNaN = False"

fun integerValue :: "jsnumber \<Rightarrow> int" where
  "integerValue (JsFinite m e) = (if 0 \<le> e then m * 10 ^ nat e else m div 10 ^ nat (- e))"
| "integerValue JsInfinity = 0"
| "integerValue JsNaN = 0"

definition parseTicketItemId :: "string \<Rightarrow> int option" where
  "parseTicketItemId raw =
     (if \<not> startsWith raw TICKET_ID_PREFIX then None
      else (let v = Number (drop (length TICKET_ID_PREFIX) raw)
            in if isInteger v then Some (integerValue v) else None))"

text \<open>
  \<^verbatim>\<open>parseLaneDropId\<close> returns the rest of the string when \<^verbatim>\<open>BOARD_STATUSES\<close> includes it:
  the status whose text the rest is.
\<close>

definition parseLaneDropId :: "string \<Rightarrow> TicketStatus option" where
  "parseLaneDropId raw =
     (if \<not> startsWith raw LANE_ID_PREFIX then None
      else (let v = drop (length LANE_ID_PREFIX) raw
            in List.find (\<lambda>st. statusText st = v) BOARD_STATUSES))"

section \<open>The ticket drawer's activity list (src/unnamed/part_002)\<close>

record TicketActivityEntry =
  entry_id :: string
  createdAt :: string
  entry_title :: string
  detail :: string

text \<open>\<^verbatim>\<open>value.split('_')\<close>: the segments between separators, the empty ones included.\<close>

fun splitOn :: "char \<Rightarrow> string \<Rightarrow> string list" where
  "splitOn sep [] = [[]]"
| "splitOn sep (c # cs) =
     (if c = sep then [] # splitOn sep cs
      else (case splitOn sep cs of
              [] \<Rightarrow> [[c]]
            | seg # segs \<Rightarrow> (c # seg) # segs))"

fun joinWith :: "string \<Rightarrow> string list \<Rightarrow> string" where
  "joinWith sep [] = []"
| "joinWith sep [seg] = seg"
| "joinWith sep (seg # rest) = seg @ sep @ joinWith sep rest"

text \<open>\<^verbatim>\<open>a || b\<close> on strings: \<open>a\<close> unless it is empty.\<close>

definition orString :: "string \<Rightarrow> string \<Rightarrow> string" where
  "orString a b = (if a \<noteq> [] then a else b)"

text \<open>
  Three built-ins of JavaScript are parameters of the model: \<open>toUpperCase\<close> (of a string
  of one character), \<open>dateParse\<close> for \<^verbatim>\<open>Date.parse\<close> (\<open>None\<close> is \<^verbatim>\<open>NaN\<close>, a time is a number
  of milliseconds) and \<open>localeCompare\<close>.
\<close>

definition formatEventType :: "(string \<Rightarrow> string) \<Rightarrow> string \<Rightarrow> string" where
  "formatEventType toUpperCase v =
     joinWith '' ''
       (map (\<lambda>segment. toUpperCase (take 1 segment) @ drop 1 segment)
          (filter (\<lambda>segment. segment \<noteq> []) (splitOn CHR ''_'' v)))"

definition formatActivityEvent :: "(string \<Rightarrow> string) \<Rightarrow> TicketEvent \<Rightarrow> string \<times> string" where
  "formatActivityEvent toUpperCase event =
     (formatEventType toUpperCase (event_type event),
      orString (details event) (orElse (actor event) ''System'' @ '' updated this ticket.''))"

definition eventEntry :: "(string \<Rightarrow> string) \<Rightarrow> TicketEvent \<Rightarrow> TicketActivityEntry" where
  "eventEntry toUpperCase event =
     \<lparr>entry_id = ''event-'' @ showInt (event_id event),
      createdAt = event_created_at event,
      entry_title = fst (formatActivityEvent toUpperCase event),
      detail = snd (formatActivityEvent toUpperCase event)\<rparr>"

definition commentEntry :: "TicketComment \<Rightarrow> TicketActivityEntry" where
  "commentEntry comment =
     \<lparr>entry_id = ''comment-'' @ showInt (comment_id comment),
      createdAt = comment_created_at comment,
      entry_title = ''Comment by '' @ orString (author comment) ''User'',
      detail = orString (content comment) ''No comment content.''\<rparr>"

definition compareEntries ::
  "(string \<Rightarrow> int option) \<Rightarrow> (string \<Rightarrow> string \<Rightarrow> int) \<Rightarrow>
     TicketActivityEntry \<Rightarrow> TicketActivityEntry \<Rightarrow> int" where
  "compareEntries dateParse localeCompare left right =
     (case (dateParse (createdAt left), dateParse (createdAt right)) of
        (Some leftMs, Some rightMs) \<Rightarrow> rightMs - leftMs
      | _ \<Rightarrow> localeCompare (createdAt right) (createdAt left))"

text \<open>
  \<^verbatim>\<open>Array.prototype.sort\<close> with a comparator is a stable sort: an element goes before the
  first one it does not compare greater than. With a comparator that is no ordering the
  language leaves the result to the implementation; the model then gives what insertion
  from the right gives.
\<close>

fun insertWith :: "('a \<Rightarrow> 'a \<Rightarrow> int) \<Rightarrow> 'a \<Rightarrow> 'a list \<Rightarrow> 'a list" where
  "insertWith cmp x [] = [x]"
| "insertWith cmp x (y # ys) = (if cmp x y \<le> 0 then x # y # ys else y # insertWith cmp x ys)"

definition sortWith :: "('a \<Rightarrow> 'a \<Rightarrow> int) \<Rightarrow> 'a list \<Rightarrow> 'a list" where
  "sortWith cmp xs = foldr (insertWith cmp) xs []"

definition buildTicketActivityEntries ::
  "(string \<Rightarrow> int option) \<Rightarrow> (string \<Rightarrow> string \<Rightarrow> int) \<Rightarrow> (string \<Rightarrow> string) \<Rightarrow>
     TicketEvent list \<Rightarrow> TicketComment list \<Rightarrow> TicketActivityEntry list" where
  "buildTicketActivityEntries dateParse localeCompare toUpperCase events comments =
     (let eventEntries = map (eventEntry toUpperCase) events;
          commentEntries = map commentEntry comments
      in sortWith (compareEntries dateParse localeCompare) (eventEntries @ commentEntries))"

section \<open>The Automation Dispatcher on move (backend, not among the sources)\<close>

text \<open>
  The backend (backend/main.py) is not among the source files; this section follows the
  spec's sections 3, 4.1, 4.2, 4.3 and 4.6, and the README's table of transitions. One
  ticket is modelled: the claim is about the spawn calls made for one ticket.
\<close>

text \<open>
  Modelled from the spec: the stored ticket of the Ticket Store, with its status, its
  nullable \<open>agent_session_key\<close> and its nullable \<open>archived_at\<close>.
\<close>

record StoredTicket =
  st_status :: TicketStatus
  st_agent_session_key :: "string option"
  st_archived_at :: "string option"

text \<open>
  Modelled from the spec: the answer of the Gateway Client's \<open>spawnSession\<close>, a session
  key or an error.
\<close>

datatype gatewayReply = SessionStarted string | GatewayError string

text \<open>
  Modelled from the spec: the backend's state for the ticket: the stored ticket, the
  types of the events appended to the Event Log, the spawn calls issued so far (each
  recorded with the session key the ticket held when the call was issued) and the
  number of spawn calls that have not returned yet.
\<close>

record Backend =
  stored :: StoredTicket
  eventLog :: "string list"
  spawnCalls :: "string option list"
  outstanding :: nat

text \<open>
  Modelled from the spec: the Transition Validator's adjacency table, as the README
  lists it.
\<close>

fun canTransition :: "TicketStatus \<Rightarrow> TicketStatus \<Rightarrow> bool" where
  "canTransition Plan to = (to \<in> {Todo, InProgress, Review, Done})"
| "canTransition Todo to = (to \<in> {Plan, InProgress, Review, Done})"
| "canTransition InProgress to = (to \<in> {Plan, Todo, Review, Done})"
| "canTransition Review to = (to \<in> {Plan, Todo, InProgress, Done})"
| "canTransition Done to = (to \<in> {Plan, Todo, Review})"

text \<open>Modelled from the spec: the two agent-eligible statuses, Plan and In Progress.\<close>

definition agentEligible :: "TicketStatus \<Rightarrow> bool" where
  "agentEligible s = (s = Plan \<or> s = InProgress)"

text \<open>
  Modelled from the spec: the dispatcher's trigger on move. When the ticket's status is
  agent-eligible and the ticket has no active session key, it issues one spawn call.
\<close>

definition dispatchOnMove :: "Backend \<Rightarrow> Backend" where
  "dispatchOnMove b =
     (if agentEligible (st_status (stored b)) \<and> st_agent_session_key (stored b) = None
      then b\<lparr>spawnCalls := spawnCalls b @ [st_agent_session_key (stored b)],
             outstanding := Suc (outstanding b)\<rparr>
      else b)"

text \<open>
  Modelled from the spec: the move operation. An archived ticket rejects the move; a
  move to the status the ticket has is a success without mutation (the spec does not say
  whether the dispatcher runs then: \<open>noopDispatches\<close> decides); a move outside the table
  is rejected; otherwise the status is committed, the session key is cleared when the
  new status is not agent-eligible, one event is appended, and only then the dispatcher
  runs.
\<close>

definition handleMove :: "bool \<Rightarrow> TicketStatus \<Rightarrow> Backend \<Rightarrow> Backend" where
  "handleMove noopDispatches to b =
     (if st_archived_at (stored b) \<noteq> None then b
      else if st_status (stored b) = to then (if noopDispatches then dispatchOnMove b else b)
      else if \<not> canTransition (st_status (stored b)) to then b
      else dispatchOnMove
             (b\<lparr>stored := (stored b)\<lparr>st_status := to,
                    st_agent_session_key :=
                      (if agentEligible to then st_agent_session_key (stored b) else None)\<rparr>,
                eventLog := eventLog b @ [''ticket_moved'']\<rparr>))"

text \<open>
  Modelled from the spec: the outcome of a spawn call, handled after the move has been
  committed. A successful spawn sets the session key and appends a success event, a
  failure appends one failure event and changes nothing else.
\<close>

definition spawnReturns :: "gatewayReply \<Rightarrow> Backend \<Rightarrow> Backend" where
  "spawnReturns reply b =
     (if outstanding b = 0 then b
      else (case reply of
              SessionStarted k \<Rightarrow>
                b\<lparr>stored := (stored b)\<lparr>st_agent_session_key := Some k\<rparr>,
                  eventLog := eventLog b @ [''spawn_succeeded''],
                  outstanding := outstanding b - 1\<rparr>
            | GatewayError r \<Rightarrow>
                b\<lparr>eventLog := eventLog b @ [''spawn_failed''],
                  outstanding := outstanding b - 1\<rparr>))"

text \<open>
  Modelled from the spec: an execution is a sequence of steps, each a move request or
  the return of a spawn call, in any order (a retry may arrive before the first spawn
  call has returned).
\<close>

datatype backendStep = MoveRequest TicketStatus | SpawnReturn gatewayReply

fun applyStep :: "bool \<Rightarrow> Backend \<Rightarrow> backendStep \<Rightarrow> Backend" where
  "applyStep noopDispatches b (MoveRequest to) = handleMove noopDispatches to b"
| "applyStep noopDispatches b (SpawnReturn reply) = spawnReturns reply b"

definition runBackend :: "bool \<Rightarrow> backendStep list \<Rightarrow> Backend \<Rightarrow> Backend" where
  "runBackend noopDispatches steps b = foldl (applyStep noopDispatches) b steps"

text \<open>Modelled from the spec: a step that retries the move to \<open>to\<close>, or a spawn call returning.\<close>

fun retryOf :: "TicketStatus \<Rightarrow> backendStep \<Rightarrow> bool" where
  "retryOf to (MoveRequest to') = (to' = to)"
| "retryOf to (SpawnReturn reply) = True"

section \<open>Concrete tickets and boards\<close>

definition sampleTicket :: Ticket where
  "sampleTicket =
     \<lparr>Ticket_id = 1, title = ''Write report'', description = [], status = Todo,
      assignee = ''Unassigned'', priority = Medium, agent_session_key = None,
      archived_at = None, created_at = ''2026-01-01T00:00:00.000Z'',
      updated_at = ''2026-01-01T00:00:00.000Z''\<rparr>"

definition archivedTicket :: Ticket where
  "archivedTicket =
     sampleTicket\<lparr>Ticket_id := 2, title := ''Old task'',
       archived_at := Some ''2026-01-02T00:00:00.000Z''\<rparr>"

definition editedTicket :: Ticket where
  "editedTicket = sampleTicket\<lparr>title := ''Write the report''\<rparr>"

definition sampleBoard :: Dashboard where
  "sampleBoard =
     \<lparr>ticketsData = Some [sampleTicket, archivedTicket], pendingTickets = [],
      optimisticTickets = [], movingTicketIds = [], warningByTicketId = [], notices = []\<rparr>"


definition failedPickup :: PickupResult where
  "failedPickup =
     \<lparr>attempted = True, spawned = False, agent_id = None, session_key = None, run_id = None,
      reason = Some ''Gateway unreachable''\<rparr>"

definition failedSpawnResponse :: MoveTicketResponse where
  "failedSpawnResponse =
     \<lparr>response_ok = True, ticket = sampleTicket\<lparr>status := Plan\<rparr>, from_status = Todo,
      to_status = Plan, pickup = failedPickup, warnings = []\<rparr>"

definition sampleDateParse :: "string \<Rightarrow> int option" where
  "sampleDateParse s =
     (if s = ''2026-01-01T00:00:00.000Z'' then Some 1767225600000
      else if s = ''2026-01-02T00:00:00.000Z'' then Some 1767312000000
      else if s = ''2026-01-03T00:00:00.000Z'' then Some 1767398400000
      else None)"

text \<open>Upper case of the letters a to z, other characters unchanged.\<close>

definition asciiUpper :: "string \<Rightarrow> string" where
  "asciiUpper s =
     map (\<lambda>c. if 97 \<le> (of_char c :: nat) \<and> (of_char c :: nat) \<le> 122
              then char_of ((of_char c :: nat) - 32) else c) s"

definition sampleEvents :: "TicketEvent list" where
  "sampleEvents =
     [\<lparr>event_id = 10, event_ticket_id = 1, event_type = ''ticket_moved'', actor = Some ''User'',
       details = ''Moved from Todo to Plan'', event_created_at = ''2026-01-01T00:00:00.000Z''\<rparr>,
      \<lparr>event_id = 11, event_ticket_id = 1, event_type = ''spawn_failed'', actor = None,
       details = [], event_created_at = ''2026-01-03T00:00:00.000Z''\<rparr>]"

definition sampleComments :: "TicketComment list" where
  "sampleComments =
     [\<lparr>comment_id = 4, comment_ticket_id = 1, author = ''Ana'', content = ''Ready'',
       comment_created_at = ''2026-01-02T00:00:00.000Z''\<rparr>]"

definition freshBackend :: Backend where
  "freshBackend =
     \<lparr>stored = \<lparr>st_status = Todo, st_agent_session_key = None, st_archived_at = None\<rparr>,
      eventLog = [], spawnCalls = [], outstanding = 0\<rparr>"

definition retrySteps :: "backendStep list" where
  "retrySteps =
     [MoveRequest Plan, SpawnReturn (SessionStarted ''agent:main:1''), MoveRequest Plan,
      MoveRequest Plan, MoveRequest InProgress, MoveRequest InProgress]"

section \<open>Lemmas about the containers\<close>

declare showDigits.simps [simp del]

lemma map_of_Map_set: "map_of (Map_set k v m) = (map_of m)(k \<mapsto> v)"
  by (induction m) (auto simp: fun_eq_iff)

lemma set_Map_set_subset: "set (Map_set k v m) \<subseteq> insert (k, v) (set m)"
  by (induction m) (auto split: if_splits)

lemma keys_Map_set:
  "map fst (Map_set k v m) = (if k \<in> set (map fst m) then map fst m else map fst m @ [k])"
  by (induction m) (auto simp: rev_image_eqI)

lemma distinct_Map_set: "distinct (map fst m) \<Longrightarrow> distinct (map fst (Map_set k v m))"
  by (simp add: keys_Map_set)




lemma find_append_cases:
  "List.find P (xs @ ys) = (case List.find P xs of None \<Rightarrow> List.find P ys | Some x \<Rightarrow> Some x)"
  by (induction xs) auto

lemma map_of_fold_set:
  "map_of (fold (\<lambda>t m. Map_set (f t) t m) ts m0) k =
     (case List.find (\<lambda>t. f t = k) (rev ts) of Some t \<Rightarrow> Some t | None \<Rightarrow> map_of m0 k)"
proof (induction ts arbitrary: m0)
  case Nil
  then show ?case by simp
next
  case (Cons t ts)
  show ?case
    by (simp add: Cons.IH map_of_Map_set find_append_cases split: option.splits)
qed

lemma distinct_fold_set:
  "distinct (map fst m0) \<Longrightarrow> distinct (map fst (fold (\<lambda>t m. Map_set (f t) (g t) m) ts m0))"
  by (induction ts arbitrary: m0) (simp_all add: distinct_Map_set)

lemma set_fold_set:
  "set (fold (\<lambda>t m. Map_set (f t) (g t) m) ts m0) \<subseteq> set m0 \<union> (\<lambda>t. (f t, g t)) ` set ts"
proof (induction ts arbitrary: m0)
  case Nil
  then show ?case by simp
next
  case (Cons t ts)
  have "set (fold (\<lambda>t m. Map_set (f t) (g t) m) ts (Map_set (f t) (g t) m0))
        \<subseteq> set (Map_set (f t) (g t) m0) \<union> (\<lambda>t. (f t, g t)) ` set ts"
    by (rule Cons.IH)
  with set_Map_set_subset [of "f t" "g t" m0] show ?case by auto
qed

lemma find_values_keyed:
  "\<forall>e \<in> set m. f (snd e) = fst e \<Longrightarrow> List.find (\<lambda>t. f t = i) (map snd m) = map_of m i"
  by (induction m) auto

lemma map_of_rev_distinct: "distinct (map fst m) \<Longrightarrow> map_of (rev m) = map_of m"
proof (induction m)
  case Nil
  then show ?case by simp
next
  case (Cons e m)
  then have ih: "map_of (rev m) = map_of m" and fresh: "map_of m (fst e) = None"
    by (auto simp: map_of_eq_None_iff)
  show ?case
  proof
    fix x
    show "map_of (rev (e # m)) x = map_of (e # m) x"
      using ih fresh by (cases e) (auto simp: map_add_def split: option.splits)
  qed
qed

lemma find_SomeD: "List.find P xs = Some x \<Longrightarrow> x \<in> set xs \<and> P x"
  by (induction xs) (auto split: if_splits)




section \<open>Lemmas about the board\<close>

lemma merged_map:
  fixes s p :: "Ticket list" and opt :: "(int, Ticket) jsmap"
  defines "m2 \<equiv> fold (\<lambda>e m. Map_set (fst e) (snd e) m) opt
                   (fold (\<lambda>t m. Map_set (Ticket_id t) t m) s
                     (fold (\<lambda>t m. Map_set (Ticket_id t) t m) p []))"
  shows "distinct (map fst m2)"
    and "\<forall>e \<in> set opt. Ticket_id (snd e) = fst e \<Longrightarrow> \<forall>e \<in> set m2. Ticket_id (snd e) = fst e"
    and "distinct (map fst opt) \<Longrightarrow> map_of m2 i =
      (case map_of opt i of Some t \<Rightarrow> Some t
       | None \<Rightarrow> (case List.find (\<lambda>t. Ticket_id t = i) (rev s) of Some t \<Rightarrow> Some t
                 | None \<Rightarrow> List.find (\<lambda>t. Ticket_id t = i) (rev p)))"
proof -
  let ?m0 = "fold (\<lambda>t m. Map_set (Ticket_id t) t m) p []"
  let ?m1 = "fold (\<lambda>t m. Map_set (Ticket_id t) t m) s ?m0"
  have d0: "distinct (map fst ?m0)"
    using distinct_fold_set [of "[]" Ticket_id "\<lambda>t. t" p] by simp
  have d1: "distinct (map fst ?m1)"
    using distinct_fold_set [OF d0, of Ticket_id "\<lambda>t. t" s] by simp
  show "distinct (map fst m2)"
    unfolding m2_def using distinct_fold_set [OF d1, of fst snd opt] by simp
  have k0: "set ?m0 \<subseteq> (\<lambda>t. (Ticket_id t, t)) ` set p"
    using set_fold_set [of Ticket_id "\<lambda>t. t" p "[]"] by simp
  have k1: "set ?m1 \<subseteq> set ?m0 \<union> (\<lambda>t. (Ticket_id t, t)) ` set s"
    using set_fold_set [of Ticket_id "\<lambda>t. t" s ?m0] by simp
  have k2: "set m2 \<subseteq> set ?m1 \<union> set opt"
    unfolding m2_def using set_fold_set [of fst snd opt ?m1] by auto
  show "\<forall>e \<in> set m2. Ticket_id (snd e) = fst e" if "\<forall>e \<in> set opt. Ticket_id (snd e) = fst e"
    using that k0 k1 k2 by fastforce
  have f2: "map_of m2 i =
      (case List.find (\<lambda>e. fst e = i) (rev opt) of Some e \<Rightarrow> Some (snd e)
       | None \<Rightarrow> map_of ?m1 i)"
    unfolding m2_def
  proof (induction opt arbitrary: i rule: rev_induct)
    case Nil
    then show ?case by simp
  next
    case (snoc e opt)
    then show ?case by (simp add: map_of_Map_set)
  qed
  have f3: "(case List.find (\<lambda>e. fst e = i) m of Some e \<Rightarrow> Some (snd e) | None \<Rightarrow> None)
              = map_of m i" for m :: "(int, Ticket) jsmap"
    by (induction m) auto
  show "map_of m2 i =
      (case map_of opt i of Some t \<Rightarrow> Some t
       | None \<Rightarrow> (case List.find (\<lambda>t. Ticket_id t = i) (rev s) of Some t \<Rightarrow> Some t
                 | None \<Rightarrow> List.find (\<lambda>t. Ticket_id t = i) (rev p)))" if "distinct (map fst opt)"
  proof -
    have "map_of (rev opt) i = map_of opt i"
      using map_of_rev_distinct [OF that] by simp
    with f3 [of "rev opt"]
    have "map_of opt i =
        (case List.find (\<lambda>e. fst e = i) (rev opt) of Some e \<Rightarrow> Some (snd e) | None \<Rightarrow> None)"
      by simp
    then show ?thesis
      unfolding f2 by (simp add: map_of_fold_set split: option.splits)
  qed
qed

lemma ticketById_get:
  assumes "Map_get (ticketById d) i = Some t"
  shows "t \<in> set (boardTickets d) \<and> Ticket_id t = i"
proof -
  from assms have "List.find (\<lambda>t. Ticket_id t = i) (rev (boardTickets d)) = Some t"
    by (simp add: Map_get_def ticketById_def map_of_fold_set split: option.splits)
  from find_SomeD [OF this] show ?thesis by simp
qed

text \<open>
  When the ids of the board's tickets are all different (they are whenever every
  optimistic entry is stored under its ticket's id), the ticket \<open>ticketById\<close> holds under
  the id of a ticket of the board is that ticket.
\<close>

lemma find_distinct_key:
  "distinct (map f xs) \<Longrightarrow> x \<in> set xs \<Longrightarrow> List.find (\<lambda>y. f y = f x) xs = Some x"
  by (induction xs) (auto simp: rev_image_eqI)

lemma ticketById_of_board:
  assumes "distinct (map Ticket_id (boardTickets d))" and "t \<in> set (boardTickets d)"
  shows "Map_get (ticketById d) (Ticket_id t) = Some t"
proof -
  from assms have "List.find (\<lambda>y. Ticket_id y = Ticket_id t) (rev (boardTickets d)) = Some t"
    by (intro find_distinct_key) (simp_all add: rev_map [symmetric])
  then show ?thesis
    by (simp add: Map_get_def ticketById_def map_of_fold_set)
qed

lemma boardTickets_not_archived: "t \<in> set (boardTickets d) \<Longrightarrow> archived_at t = None"
  by (simp add: boardTickets_def)


lemma moveTicket_call_iff:
  "snd (moveTicket d i target now outcome refetched) = snd (moveTicket_begin d i target now)"
  by (simp add: moveTicket_def split: prod.splits option.splits)

lemma moveTicket_begin_Some:
  assumes "moveTicket_begin d i target now = (d1, Some call)"
  shows "\<exists>t. Map_get (ticketById d) i = Some t \<and> 0 \<le> Ticket_id t \<and> status t \<noteq> target
            \<and> \<not> Set_has (movingTicketIds d) i
            \<and> d1 = d\<lparr>optimisticTickets :=
                       Map_set i (t\<lparr>status := target, updated_at := now\<rparr>) (optimisticTickets d),
                     movingTicketIds := Set_add i (movingTicketIds d)\<rparr>
            \<and> call = \<lparr>call_ticketId = i, call_status = target, call_actor = ''User''\<rparr>"
  using assms by (auto simp: moveTicket_begin_def Let_def split: option.splits if_splits)

lemma sampleBoard_tickets: "boardTickets sampleBoard = [sampleTicket]"
  by (simp add: boardTickets_def sampleBoard_def mergeTickets_def Map_values_def
      sampleTicket_def archivedTicket_def)

lemma sampleBoard_begin:
  "moveTicket_begin sampleBoard 1 Done ''2026-01-03T00:00:00.000Z'' =
     (sampleBoard\<lparr>optimisticTickets :=
         [(1, sampleTicket\<lparr>status := Done, updated_at := ''2026-01-03T00:00:00.000Z''\<rparr>)],
        movingTicketIds := [1]\<rparr>,
      Some \<lparr>call_ticketId = 1, call_status = Done, call_actor = ''User''\<rparr>)"
  by (simp add: moveTicket_begin_def ticketById_def sampleBoard_tickets Map_get_def Set_has_def
      Set_add_def)
    (simp add: sampleTicket_def sampleBoard_def)



section \<open>Lemmas about printing and reading numbers\<close>

lemma of_char_digitChar: "d < 10 \<Longrightarrow> (of_char (digitChar d) :: nat) = 48 + d"
  by (simp add: digitChar_def)

lemma isDigit_digitChar: "d < 10 \<Longrightarrow> isDigit (digitChar d)"
  by (simp add: isDigit_def of_char_digitChar)

lemma digitValue_digitChar: "d < 10 \<Longrightarrow> digitValue (digitChar d) = Some d"
  by (simp add: digitValue_def of_char_digitChar)

lemma showDigits_small: "n < 10 \<Longrightarrow> showDigits n = [digitChar (nat n)]"
  by (subst showDigits.simps) simp

lemma showDigits_large:
  "\<not> n < 10 \<Longrightarrow> showDigits n = showDigits (n div 10) @ [digitChar (nat (n mod 10))]"
  by (subst showDigits.simps) simp

lemma showDigits_digits: "0 \<le> n \<Longrightarrow> list_all isDigit (showDigits n)"
proof (induction n rule: showDigits.induct)
  case (1 n)
  show ?case
  proof (cases "n < 10")
    case True
    with 1 show ?thesis by (simp add: showDigits_small isDigit_digitChar)
  next
    case False
    with 1 show ?thesis by (simp add: showDigits_large isDigit_digitChar)
  qed
qed

lemma showDigits_nonempty: "showDigits n \<noteq> []"
  by (cases "n < 10") (simp_all add: showDigits_small showDigits_large)

lemma radixValue_snoc:
  "radixValue r (ds @ [c]) = r * radixValue r ds + int (orElse (digitValue c) 0)"
  by (simp add: radixValue_def)

lemma radixValue_showDigits: "0 \<le> n \<Longrightarrow> radixValue 10 (showDigits n) = n"
proof (induction n rule: showDigits.induct)
  case (1 n)
  show ?case
  proof (cases "n < 10")
    case True
    with 1 show ?thesis
      by (simp add: showDigits_small radixValue_def digitValue_digitChar orElse_def)
  next
    case False
    with 1 have "radixValue 10 (showDigits (n div 10)) = n div 10" by simp
    with False 1 show ?thesis
      by (simp add: showDigits_large radixValue_snoc digitValue_digitChar orElse_def)
  qed
qed

lemma isDigit_facts:
  assumes "isDigit c"
  shows "\<not> isWhiteSpace c" and "c \<noteq> CHR ''+''" and "c \<noteq> CHR ''-''" and "c \<noteq> CHR ''.''"
    and "c \<noteq> CHR ''x''" and "c \<noteq> CHR ''X''" and "c \<noteq> CHR ''o''" and "c \<noteq> CHR ''O''"
    and "c \<noteq> CHR ''b''" and "c \<noteq> CHR ''B''" and "c \<noteq> CHR ''I''"
  using assms by (auto simp: isDigit_def isWhiteSpace_def)

lemma trim_id:
  assumes "s \<noteq> []" and "\<not> isWhiteSpace (hd s)" and "\<not> isWhiteSpace (last s)"
  shows "trim s = s"
proof -
  from assms have a: "dropWhile isWhiteSpace s = s"
    by (cases s) simp_all
  from assms have "dropWhile isWhiteSpace (rev s) = rev s"
    by (cases "rev s") (simp_all add: hd_rev)
  with a show ?thesis by (simp add: trim_def)
qed

lemma unsignedDecimalLiteral_digits:
  assumes "ds \<noteq> []" and "list_all isDigit ds"
  shows "unsignedDecimalLiteral ds = JsFinite (radixValue 10 ds) 0"
proof -
  from assms have "isDigit (hd ds)" by (cases ds) simp_all
  then have "hd ds \<noteq> CHR ''I''" by (rule isDigit_facts)
  then have notInf: "ds \<noteq> ''Infinity''" by auto
  from assms(2) have tw: "takeWhile isDigit ds = ds" and dw: "dropWhile isDigit ds = []"
    by (simp_all add: list_all_iff)
  show ?thesis
    using assms(1) notInf
    by (simp add: unsignedDecimalLiteral_def tw dw exponentPart_def)
qed

lemma nonDecimalLiteral_digits:
  assumes "list_all isDigit ds"
  shows "nonDecimalLiteral ds = None"
proof (cases ds)
  case Nil
  then show ?thesis by (simp add: nonDecimalLiteral_def)
next
  case (Cons z r)
  show ?thesis
  proof (cases r)
    case Nil
    with Cons show ?thesis by (simp add: nonDecimalLiteral_def)
  next
    case (Cons x r')
    with assms \<open>ds = z # r\<close> have "isDigit x" by simp
    from isDigit_facts(5-10) [OF this] Cons \<open>ds = z # r\<close> show ?thesis
      by (simp add: nonDecimalLiteral_def)
  qed
qed

lemma Number_showDigits:
  assumes "0 \<le> n"
  shows "Number (showDigits n) = JsFinite n 0"
proof -
  let ?ds = "showDigits n"
  have ne: "?ds \<noteq> []" by (rule showDigits_nonempty)
  have dg: "list_all isDigit ?ds" using assms by (rule showDigits_digits)
  from ne dg have "isDigit (hd ?ds)" and "isDigit (last ?ds)"
    by (simp_all add: list_all_iff)
  then have hd: "\<not> isWhiteSpace (hd ?ds)" "hd ?ds \<noteq> CHR ''+''" "hd ?ds \<noteq> CHR ''-''"
    and "\<not> isWhiteSpace (last ?ds)"
    by (simp_all add: isDigit_facts)
  with ne have tr: "trim ?ds = ?ds" by (simp add: trim_id)
  obtain c rest where split: "?ds = c # rest" using ne by (cases ?ds) auto
  with hd have c: "c \<noteq> CHR ''+''" "c \<noteq> CHR ''-''" by simp_all
  have "Number ?ds = unsignedDecimalLiteral ?ds"
    unfolding Number_def tr Let_def
    using c nonDecimalLiteral_digits [OF dg] by (simp add: split)
  then show ?thesis
    using assms by (simp add: unsignedDecimalLiteral_digits [OF ne dg] radixValue_showDigits)
qed

lemma Number_minus_showDigits:
  assumes "0 < n"
  shows "Number (CHR ''-'' # showDigits n) = JsFinite (- n) 0"
proof -
  let ?ds = "showDigits n"
  have ne: "?ds \<noteq> []" by (rule showDigits_nonempty)
  have dg: "list_all isDigit ?ds" using assms by (intro showDigits_digits) simp
  from ne dg have "isDigit (last ?ds)"
    by (simp add: list_all_iff)
  then have "\<not> isWhiteSpace (last ?ds)"
    by (rule isDigit_facts)
  moreover have "\<not> isWhiteSpace CHR ''-''"
    by (simp add: isWhiteSpace_def)
  ultimately have tr: "trim (CHR ''-'' # ?ds) = CHR ''-'' # ?ds"
    using ne by (intro trim_id) simp_all
  have nd: "nonDecimalLiteral (CHR ''-'' # ?ds) = None"
    by (simp add: nonDecimalLiteral_def split: list.splits)
  have "Number (CHR ''-'' # ?ds) = negate (unsignedDecimalLiteral ?ds)"
    unfolding Number_def tr Let_def by (simp add: nd)
  then show ?thesis
    using assms by (simp add: unsignedDecimalLiteral_digits [OF ne dg] radixValue_showDigits)
qed

lemma Number_showInt: "Number (showInt n) = JsFinite n 0"
proof (cases "n < 0")
  case True
  then have "Number (CHR ''-'' # showDigits (- n)) = JsFinite (- (- n)) 0"
    by (intro Number_minus_showDigits) simp
  with True show ?thesis by (simp add: showInt_def)
next
  case False
  then show ?thesis by (simp add: showInt_def Number_showDigits)
qed

section \<open>The board never offers an archived ticket for a move\<close>

text \<open>
  C1. Whatever the server tickets, pending tickets and optimistic tickets are, every
  ticket of \<open>boardTickets\<close> has \<open>archived_at\<close> equal to null. \<open>moveTicket\<close> looks its ticket
  up in \<open>ticketById\<close>, which is built from that list only: when it issues a move request,
  the request names the id it was called with, the ticket found under that id is on the
  board and is not archived, and no ticket of the board with the request's id is archived.
\<close>

theorem boardTickets_never_archived:
  "(\<forall>t. t \<in> set (boardTickets d) \<longrightarrow> archived_at t = None) \<and>
   (\<forall>d' call. moveTicket d i target now outcome refetched = (d', Some call) \<longrightarrow>
      call_ticketId call = i \<and>
      (\<exists>t. Map_get (ticketById d) i = Some t \<and> t \<in> set (boardTickets d) \<and>
           Ticket_id t = i \<and> archived_at t = None) \<and>
      (\<forall>t. t \<in> set (boardTickets d) \<and> Ticket_id t = call_ticketId call \<longrightarrow>
           archived_at t = None))"
proof (intro conjI allI impI)
  fix t
  assume "t \<in> set (boardTickets d)"
  then show "archived_at t = None" by (rule boardTickets_not_archived)
next
  fix d' call
  assume run: "moveTicket d i target now outcome refetched = (d', Some call)"
  then have "snd (moveTicket_begin d i target now) = Some call"
    using moveTicket_call_iff [of d i target now outcome refetched] by simp
  then obtain d1 where b: "moveTicket_begin d i target now = (d1, Some call)"
    by (cases "moveTicket_begin d i target now") auto
  from moveTicket_begin_Some [OF b] obtain t where
    t: "Map_get (ticketById d) i = Some t" and
    call: "call = \<lparr>call_ticketId = i, call_status = target, call_actor = ''User''\<rparr>"
    by blast
  show "call_ticketId call = i" using call by simp
  from ticketById_get [OF t] boardTickets_not_archived [of t d]
  show "\<exists>t. Map_get (ticketById d) i = Some t \<and> t \<in> set (boardTickets d) \<and>
            Ticket_id t = i \<and> archived_at t = None"
    using t by blast
next
  fix d' call t
  assume "t \<in> set (boardTickets d) \<and> Ticket_id t = call_ticketId call"
  then show "archived_at t = None" using boardTickets_not_archived by blast
qed

theorem boardTickets_never_archived_witness:
  "sampleTicket \<in> set (boardTickets sampleBoard) \<and> archived_at sampleTicket = None \<and>
   archivedTicket \<notin> set (boardTickets sampleBoard) \<and>
   snd (moveTicket sampleBoard 1 Done ''2026-01-03T00:00:00.000Z'' (Rejected ThrownOther) None)
     = Some \<lparr>call_ticketId = 1, call_status = Done, call_actor = ''User''\<rparr> \<and>
   (\<exists>t. Map_get (ticketById sampleBoard) 1 = Some t \<and> archived_at t = None)"
proof -
  let ?run = "moveTicket sampleBoard 1 Done ''2026-01-03T00:00:00.000Z'' (Rejected ThrownOther) None"
  let ?call = "\<lparr>call_ticketId = 1, call_status = Done, call_actor = ''User''\<rparr>"
  have onBoard: "sampleTicket \<in> set (boardTickets sampleBoard)"
    by (simp add: sampleBoard_tickets)
  have gone: "archivedTicket \<notin> set (boardTickets sampleBoard)"
    by (simp add: sampleBoard_tickets sampleTicket_def archivedTicket_def)
  have issued: "snd ?run = Some ?call"
    by (simp add: moveTicket_call_iff sampleBoard_begin)
  then have run: "?run = (fst ?run, Some ?call)"
    by (simp add: prod_eq_iff)
  from boardTickets_never_archived
    [of sampleBoard 1 Done "''2026-01-03T00:00:00.000Z''" "Rejected ThrownOther" None]
  have all: "\<forall>t. t \<in> set (boardTickets sampleBoard) \<longrightarrow> archived_at t = None"
    and found: "\<exists>t. Map_get (ticketById sampleBoard) 1 = Some t \<and> archived_at t = None"
    using run by blast+
  from all onBoard have "archived_at sampleTicket = None" by blast
  with onBoard gone issued found show ?thesis by blast
qed

section \<open>Moving a ticket to the status it has\<close>

text \<open>
  C2. When \<open>moveTicket\<close> is called for a ticket of the board (the ticket \<open>ticketById\<close>
  holds under the id, see \<open>ticketById_of_board\<close>) with the status that ticket already
  has, it issues no move request and leaves \<open>optimisticTickets\<close>,
  \<open>movingTicketIds\<close> and \<open>warningByTicketId\<close> as they were (the tickets data and
  the pending tickets too); for a ticket whose id is not negative nothing at all changes,
  no notice is raised: the call is a no-op, not an error.
\<close>

theorem moveTicket_same_status_noop:
  assumes "Map_get (ticketById d) i = Some t" and "status t = target"
  shows "snd (moveTicket d i target now outcome refetched) = None \<and>
         optimisticTickets (fst (moveTicket d i target now outcome refetched)) = optimisticTickets d \<and>
         movingTicketIds (fst (moveTicket d i target now outcome refetched)) = movingTicketIds d \<and>
         warningByTicketId (fst (moveTicket d i target now outcome refetched)) = warningByTicketId d \<and>
         ticketsData (fst (moveTicket d i target now outcome refetched)) = ticketsData d \<and>
         pendingTickets (fst (moveTicket d i target now outcome refetched)) = pendingTickets d \<and>
         (0 \<le> Ticket_id t \<longrightarrow> fst (moveTicket d i target now outcome refetched) = d)"
  using assms by (simp add: moveTicket_def moveTicket_begin_def notify_def)

theorem moveTicket_same_status_noop_witness:
  "Map_get (ticketById sampleBoard) 1 = Some sampleTicket \<and> status sampleTicket = Todo \<and>
   moveTicket sampleBoard 1 Todo ''2026-01-03T00:00:00.000Z'' (Fulfilled failedSpawnResponse) None
     = (sampleBoard, None)"
proof -
  have found: "Map_get (ticketById sampleBoard) 1 = Some sampleTicket"
    by (simp add: ticketById_def sampleBoard_tickets Map_get_def) (simp add: sampleTicket_def)
  have same: "status sampleTicket = Todo"
    by (simp add: sampleTicket_def)
  have "0 \<le> Ticket_id sampleTicket"
    by (simp add: sampleTicket_def)
  with moveTicket_same_status_noop [OF found same,
      of "''2026-01-03T00:00:00.000Z''" "Fulfilled failedSpawnResponse" None]
  have "moveTicket sampleBoard 1 Todo ''2026-01-03T00:00:00.000Z''
          (Fulfilled failedSpawnResponse) None = (sampleBoard, None)"
    by (simp add: prod_eq_iff)
  with found same show ?thesis by blast
qed

section \<open>Warnings of a move response\<close>

text \<open>
  C3. \<open>collectMoveWarnings\<close> returns the response's warnings with \<open>pickup.reason\<close> appended
  exactly when \<open>pickup.spawned\<close> is false, the reason is a non-empty string and the reason
  is not among the warnings already; otherwise it returns the warnings unchanged. So a
  failed spawn that carries a reason always gives a non-empty list holding the reason,
  and a successful spawn gives back the warnings as they are.
\<close>

theorem collectMoveWarnings_spec:
  "collectMoveWarnings r =
     (if \<not> spawned (pickup r) \<and>
         (\<exists>s. reason (pickup r) = Some s \<and> s \<noteq> [] \<and> s \<notin> set (warnings r))
      then warnings r @ [the (reason (pickup r))] else warnings r) \<and>
   (\<forall>s. \<not> spawned (pickup r) \<and> reason (pickup r) = Some s \<and> s \<noteq> [] \<longrightarrow>
        collectMoveWarnings r \<noteq> [] \<and> s \<in> set (collectMoveWarnings r)) \<and>
   (spawned (pickup r) \<longrightarrow> collectMoveWarnings r = warnings r)"
  by (cases "reason (pickup r)") (auto simp: collectMoveWarnings_def Let_def)

theorem collectMoveWarnings_spec_witness:
  "\<not> spawned (pickup failedSpawnResponse) \<and>
   reason (pickup failedSpawnResponse) = Some ''Gateway unreachable'' \<and>
   collectMoveWarnings failedSpawnResponse = [''Gateway unreachable''] \<and>
   spawned (pickup (failedSpawnResponse\<lparr>pickup := failedPickup\<lparr>spawned := True\<rparr>\<rparr>)) \<and>
   collectMoveWarnings (failedSpawnResponse\<lparr>pickup := failedPickup\<lparr>spawned := True\<rparr>\<rparr>) = []"
proof -
  have a: "\<not> spawned (pickup failedSpawnResponse)"
    and b: "reason (pickup failedSpawnResponse) = Some ''Gateway unreachable''"
    and c: "warnings failedSpawnResponse = []"
    by (simp_all add: failedSpawnResponse_def failedPickup_def)
  from collectMoveWarnings_spec [of failedSpawnResponse] a b c
  have one: "collectMoveWarnings failedSpawnResponse = [''Gateway unreachable'']"
    by simp
  let ?ok = "failedSpawnResponse\<lparr>pickup := failedPickup\<lparr>spawned := True\<rparr>\<rparr>"
  have d: "spawned (pickup ?ok)" and e: "warnings ?ok = []"
    by (simp_all add: failedSpawnResponse_def)
  from collectMoveWarnings_spec [of ?ok] d e
  have two: "collectMoveWarnings ?ok = []"
    by simp
  from a b one d two show ?thesis by blast
qed

section \<open>Realtime payloads that trigger a refetch\<close>

text \<open>
  C5. \<open>shouldRefetchFromRealtimePayload\<close> is true exactly for a non-null object whose
  \<open>type\<close> property is a string among the six tags ticket_created, ticket_updated,
  ticket_moved, ticket_archived, comment_added and ticket_event, which are the members of
  \<open>REALTIME_REFRESH_EVENT_TYPES\<close>, six different strings. Every other payload (not an
  object, no \<open>type\<close>, a \<open>type\<close> that is no string, any other tag) gives false.
\<close>

theorem shouldRefetchFromRealtimePayload_iff:
  "(shouldRefetchFromRealtimePayload payload \<longleftrightarrow>
      (\<exists>ps ty. payload = JObject ps \<and> map_of ps ''type'' = Some (JString ty) \<and>
         ty \<in> {''ticket_created'', ''ticket_updated'', ''ticket_moved'', ''ticket_archived'',
               ''comment_added'', ''ticket_event''})) \<and>
   set REALTIME_REFRESH_EVENT_TYPES =
     {''ticket_created'', ''ticket_updated'', ''ticket_moved'', ''ticket_archived'',
      ''comment_added'', ''ticket_event''} \<and>
   card (set REALTIME_REFRESH_EVENT_TYPES) = 6"
proof (intro conjI)
  show "shouldRefetchFromRealtimePayload payload \<longleftrightarrow>
      (\<exists>ps ty. payload = JObject ps \<and> map_of ps ''type'' = Some (JString ty) \<and>
         ty \<in> {''ticket_created'', ''ticket_updated'', ''ticket_moved'', ''ticket_archived'',
               ''comment_added'', ''ticket_event''})"
    by (cases payload)
      (auto simp: shouldRefetchFromRealtimePayload_def REALTIME_REFRESH_EVENT_TYPES_def
        split: option.splits jsvalue.splits)
  show "set REALTIME_REFRESH_EVENT_TYPES =
     {''ticket_created'', ''ticket_updated'', ''ticket_moved'', ''ticket_archived'',
      ''comment_added'', ''ticket_event''}"
    by (simp add: REALTIME_REFRESH_EVENT_TYPES_def)
  show "card (set REALTIME_REFRESH_EVENT_TYPES) = 6"
    by (simp add: REALTIME_REFRESH_EVENT_TYPES_def)
qed

theorem shouldRefetchFromRealtimePayload_iff_witness:
  "shouldRefetchFromRealtimePayload
     (JObject [(''type'', JString ''ticket_moved''), (''ticket_id'', JNumber 7)]) \<and>
   \<not> shouldRefetchFromRealtimePayload (JObject [(''type'', JString ''pong'')]) \<and>
   \<not> shouldRefetchFromRealtimePayload (JString ''ping'') \<and>
   \<not> shouldRefetchFromRealtimePayload (JObject [(''type'', JNumber 1)]) \<and>
   \<not> shouldRefetchFromRealtimePayload (JArray [JString ''ticket_moved'']) \<and>
   \<not> shouldRefetchFromRealtimePayload JNull"
  using shouldRefetchFromRealtimePayload_iff
      [of "JObject [(''type'', JString ''ticket_moved''), (''ticket_id'', JNumber 7)]"]
    shouldRefetchFromRealtimePayload_iff [of "JObject [(''type'', JString ''pong'')]"]
    shouldRefetchFromRealtimePayload_iff [of "JString ''ping''"]
    shouldRefetchFromRealtimePayload_iff [of "JObject [(''type'', JNumber 1)]"]
    shouldRefetchFromRealtimePayload_iff [of "JArray [JString ''ticket_moved'']"]
    shouldRefetchFromRealtimePayload_iff [of JNull]
  by simp

section \<open>A rejected and a fulfilled move request\<close>




section \<open>Merged tickets, one per id\<close>

text \<open>
  As the claim puts it, the merged list holds at most one ticket per id for every
  input. The optimistic map's entries go into the merge under their own keys, so an
  entry stored under a key that is not its ticket's id adds a second ticket of that id.
\<close>

theorem mergeTickets_one_per_id_counterexample:
  "mergeTickets [sampleTicket] [] [(5, editedTicket)] = [sampleTicket, editedTicket] \<and>
   Ticket_id sampleTicket = Ticket_id editedTicket \<and>
   \<not> distinct (map Ticket_id (mergeTickets [sampleTicket] [] [(5, editedTicket)]))"
  by (simp add: mergeTickets_def Map_values_def sampleTicket_def editedTicket_def)

text \<open>
  C9, amended. For every input in which each entry of the optimistic map is stored under
  its own ticket's id (the map, being a \<^verbatim>\<open>Map\<close>, has one entry per key), \<open>mergeTickets\<close>
  returns a list with at most one ticket per id, and the ticket returned for an id is the
  optimistic entry if there is one, otherwise the server ticket of that id if there is
  one (the last, should the server list repeat the id), otherwise the pending ticket of
  that id (again the last): optimistic entries override server tickets, which override
  pending tickets.
\<close>

theorem mergeTickets_one_per_id:
  assumes "distinct (map fst opt)"
    and "\<forall>e \<in> set opt. Ticket_id (snd e) = fst e"
  shows "distinct (map Ticket_id (mergeTickets server pending opt)) \<and>
    (\<forall>i. List.find (\<lambda>t. Ticket_id t = i) (mergeTickets server pending opt) =
      (case Map_get opt i of Some t \<Rightarrow> Some t
       | None \<Rightarrow> (case List.find (\<lambda>t. Ticket_id t = i) (rev server) of Some t \<Rightarrow> Some t
                 | None \<Rightarrow> List.find (\<lambda>t. Ticket_id t = i) (rev pending))))"
proof (intro conjI allI)
  let ?m2 = "fold (\<lambda>e m. Map_set (fst e) (snd e) m) opt
                   (fold (\<lambda>t m. Map_set (Ticket_id t) t m) server
                     (fold (\<lambda>t m. Map_set (Ticket_id t) t m) pending []))"
  have keyed: "\<forall>e \<in> set ?m2. Ticket_id (snd e) = fst e"
    using merged_map(2) [OF assms(2)] .
  have eq: "map (Ticket_id \<circ> snd) ?m2 = map fst ?m2"
    using keyed by (intro map_cong) simp_all
  have "distinct (map (Ticket_id \<circ> snd) ?m2)"
    unfolding eq by (rule merged_map(1))
  then show "distinct (map Ticket_id (mergeTickets server pending opt))"
    by (simp add: mergeTickets_def Map_values_def)
  fix i
  show "List.find (\<lambda>t. Ticket_id t = i) (mergeTickets server pending opt) =
      (case Map_get opt i of Some t \<Rightarrow> Some t
       | None \<Rightarrow> (case List.find (\<lambda>t. Ticket_id t = i) (rev server) of Some t \<Rightarrow> Some t
                 | None \<Rightarrow> List.find (\<lambda>t. Ticket_id t = i) (rev pending)))"
    using find_values_keyed [OF keyed, of i] merged_map(3) [OF assms(1), of server pending i]
    by (simp add: mergeTickets_def Map_values_def Map_get_def)
qed

theorem mergeTickets_one_per_id_witness:
  "distinct (map fst [(1::int, editedTicket)]) \<and>
   Ticket_id editedTicket = 1 \<and>
   distinct (map Ticket_id
     (mergeTickets [sampleTicket, archivedTicket] [sampleTicket\<lparr>Ticket_id := - 5\<rparr>]
        [(1, editedTicket)])) \<and>
   List.find (\<lambda>t. Ticket_id t = 1)
     (mergeTickets [sampleTicket, archivedTicket] [sampleTicket\<lparr>Ticket_id := - 5\<rparr>]
        [(1, editedTicket)]) = Some editedTicket \<and>
   List.find (\<lambda>t. Ticket_id t = 2)
     (mergeTickets [sampleTicket, archivedTicket] [sampleTicket\<lparr>Ticket_id := - 5\<rparr>]
        [(1, editedTicket)]) = Some archivedTicket \<and>
   List.find (\<lambda>t. Ticket_id t = - 5)
     (mergeTickets [sampleTicket, archivedTicket] [sampleTicket\<lparr>Ticket_id := - 5\<rparr>]
        [(1, editedTicket)]) = Some (sampleTicket\<lparr>Ticket_id := - 5\<rparr>)"
proof -
  have h1: "distinct (map fst [(1::int, editedTicket)])"
    by simp
  have h2: "\<forall>e \<in> set [(1::int, editedTicket)]. Ticket_id (snd e) = fst e"
    by (simp add: editedTicket_def sampleTicket_def)
  have ids: "Ticket_id editedTicket = 1" "Ticket_id sampleTicket = 1" "Ticket_id archivedTicket = 2"
    by (simp_all add: editedTicket_def sampleTicket_def archivedTicket_def)
  from mergeTickets_one_per_id [OF h1 h2, of "[sampleTicket, archivedTicket]"
      "[sampleTicket\<lparr>Ticket_id := - 5\<rparr>]"] h1 ids
  show ?thesis
    by (simp add: Map_get_def)
qed

section \<open>Drag-and-drop identifiers round-trip\<close>

text \<open>
  C10. For every integer ticket id \<open>n\<close> of the safe range (magnitude below \<open>2 ^ 53\<close>, the
  integers a JavaScript number holds exactly and prints digit by digit; the ids the
  database assigns and the negative clock values of pending tickets are among them),
  \<open>parseTicketItemId (ticketItemId n)\<close> is \<open>n\<close>; for every board status \<open>s\<close> (Todo, Plan,
  In Progress, Review, Done), \<open>parseLaneDropId (laneDropId s)\<close> is \<open>s\<close>; a string that does
  not start with the prefix of the kind parses to null.
\<close>

theorem dnd_ids_roundtrip:
  "(\<forall>n. \<bar>n\<bar> < 2 ^ 53 \<longrightarrow> parseTicketItemId (ticketItemId n) = Some n) \<and>
   (\<forall>s. s \<in> set BOARD_STATUSES \<longrightarrow> parseLaneDropId (laneDropId s) = Some s) \<and>
   set BOARD_STATUSES = {Todo, Plan, InProgress, Review, Done} \<and>
   (\<forall>raw. \<not> startsWith raw TICKET_ID_PREFIX \<longrightarrow> parseTicketItemId raw = None) \<and>
   (\<forall>raw. \<not> startsWith raw LANE_ID_PREFIX \<longrightarrow> parseLaneDropId raw = None)"
proof (intro conjI allI impI)
  fix n :: int
  assume "\<bar>n\<bar> < 2 ^ 53"
  show "parseTicketItemId (ticketItemId n) = Some n"
    by (simp add: parseTicketItemId_def ticketItemId_def startsWith_def Number_showInt)
next
  fix s
  assume "s \<in> set BOARD_STATUSES"
  have "List.find (\<lambda>st. statusText st = statusText s) BOARD_STATUSES = Some s"
    by (cases s) (simp_all add: BOARD_STATUSES_def)
  then show "parseLaneDropId (laneDropId s) = Some s"
    by (simp add: parseLaneDropId_def laneDropId_def startsWith_def)
next
  show "set BOARD_STATUSES = {Todo, Plan, InProgress, Review, Done}"
    by (simp add: BOARD_STATUSES_def)
next
  fix raw
  assume "\<not> startsWith raw TICKET_ID_PREFIX"
  then show "parseTicketItemId raw = None"
    by (simp add: parseTicketItemId_def)
next
  fix raw
  assume "\<not> startsWith raw LANE_ID_PREFIX"
  then show "parseLaneDropId raw = None"
    by (simp add: parseLaneDropId_def)
qed

theorem dnd_ids_roundtrip_witness:
  "\<bar>- 1730000000000 :: int\<bar> < 2 ^ 53 \<and>
   ticketItemId (- 1730000000000) = ''ticket:-1730000000000'' \<and>
   parseTicketItemId ''ticket:-1730000000000'' = Some (- 1730000000000) \<and>
   InProgress \<in> set BOARD_STATUSES \<and>
   laneDropId InProgress = ''lane:In Progress'' \<and>
   parseLaneDropId ''lane:In Progress'' = Some InProgress \<and>
   \<not> startsWith ''lane:Todo'' TICKET_ID_PREFIX \<and>
   parseTicketItemId ''lane:Todo'' = None \<and>
   \<not> startsWith ''ticket:7'' LANE_ID_PREFIX \<and>
   parseLaneDropId ''ticket:7'' = None"
proof -
  have p: "ticketItemId (- 1730000000000) = ''ticket:-1730000000000''"
    by code_simp
  have q: "InProgress \<in> set BOARD_STATUSES"
    by (simp add: BOARD_STATUSES_def)
  have r: "laneDropId InProgress = ''lane:In Progress''"
    by (simp add: laneDropId_def LANE_ID_PREFIX_def)
  have s: "\<not> startsWith ''lane:Todo'' TICKET_ID_PREFIX"
    by (simp add: startsWith_def TICKET_ID_PREFIX_def)
  have t: "\<not> startsWith ''ticket:7'' LANE_ID_PREFIX"
    by (simp add: startsWith_def LANE_ID_PREFIX_def)
  have safe: "\<bar>- 1730000000000 :: int\<bar> < 2 ^ 53"
    by simp
  from dnd_ids_roundtrip safe
  have "parseTicketItemId (ticketItemId (- 1730000000000)) = Some (- 1730000000000)"
    by blast
  with p have parsed: "parseTicketItemId ''ticket:-1730000000000'' = Some (- 1730000000000)"
    by simp
  from dnd_ids_roundtrip q r
  have lane: "parseLaneDropId ''lane:In Progress'' = Some InProgress"
    by metis
  from dnd_ids_roundtrip s t
  have none: "parseTicketItemId ''lane:Todo'' = None" "parseLaneDropId ''ticket:7'' = None"
    by blast+
  from safe p parsed q r lane s t none show ?thesis
    by blast
qed

section \<open>The placeholder ticket's status in the two versions of handleCreateTicket\<close>

text \<open>
  C7 asks that the two versions of \<^verbatim>\<open>handleCreateTicket\<close> give their placeholder ticket the
  same status. They do not: for every request, clock and list of pending tickets, the
  placeholder of src/frontend/src/App.tsx has status Plan and that of src/unnamed/part_008
  has status Todo; the two placeholders agree in every other field.
\<close>

theorem handleCreateTicket_placeholder_status:
  "status (fst (handleCreateTicket_App payload nowMs now existing)) = Plan \<and>
   status (fst (handleCreateTicket_part_008 payload nowMs now existing)) = Todo \<and>
   status (fst (handleCreateTicket_App payload nowMs now existing))
     \<noteq> status (fst (handleCreateTicket_part_008 payload nowMs now existing)) \<and>
   fst (handleCreateTicket_part_008 payload nowMs now existing)
     = (fst (handleCreateTicket_App payload nowMs now existing))\<lparr>status := Todo\<rparr>"
  by (simp add: handleCreateTicket_App_def handleCreateTicket_part_008_def Let_def)

section \<open>Lemmas about sorting with a comparator\<close>

lemma set_insertWith: "set (insertWith cmp x ys) = insert x (set ys)"
  by (induction ys) auto

lemma length_insertWith: "length (insertWith cmp x ys) = Suc (length ys)"
  by (induction ys) auto

lemma length_sortWith: "length (sortWith cmp xs) = length xs"
  by (induction xs) (simp_all add: sortWith_def length_insertWith)

lemma count_list_insertWith: "count_list (insertWith cmp x ys) z = count_list (x # ys) z"
  by (induction ys) auto

lemma count_list_sortWith: "count_list (sortWith cmp xs) z = count_list xs z"
  by (induction xs) (simp_all add: sortWith_def count_list_insertWith)

lemma set_sortWith: "set (sortWith cmp xs) = set xs"
  by (induction xs) (simp_all add: sortWith_def set_insertWith)

lemma sorted_insertWith:
  assumes "\<forall>a \<in> insert x (set ys). \<forall>b \<in> insert x (set ys). (cmp a b \<le> 0 \<longleftrightarrow> key b \<le> key a)"
    and "sorted_wrt (\<lambda>a b. (key b :: int) \<le> key a) ys"
  shows "sorted_wrt (\<lambda>a b. key b \<le> key a) (insertWith cmp x ys)"
  using assms
proof (induction ys)
  case Nil
  then show ?case by simp
next
  case (Cons y ys)
  show ?case
  proof (cases "cmp x y \<le> 0")
    case True
    with Cons.prems have "key y \<le> key x" by simp
    with Cons.prems True show ?thesis by (auto intro: order_trans)
  next
    case False
    with Cons.prems have xy: "key x \<le> key y" by auto
    from Cons.prems have "sorted_wrt (\<lambda>a b. key b \<le> key a) (insertWith cmp x ys)"
      by (intro Cons.IH) auto
    with False xy Cons.prems show ?thesis
      by (auto simp: set_insertWith)
  qed
qed

lemma sorted_sortWith:
  assumes "\<forall>a \<in> set xs. \<forall>b \<in> set xs. (cmp a b \<le> 0 \<longleftrightarrow> key b \<le> key a)"
  shows "sorted_wrt (\<lambda>a b. (key b :: int) \<le> key a) (sortWith cmp xs)"
  using assms
proof (induction xs)
  case Nil
  then show ?case by (simp add: sortWith_def)
next
  case (Cons x xs)
  then have ih: "sorted_wrt (\<lambda>a b. key b \<le> key a) (sortWith cmp xs)" by simp
  have "sorted_wrt (\<lambda>a b. key b \<le> key a) (insertWith cmp x (sortWith cmp xs))"
    using Cons.prems ih by (intro sorted_insertWith) (simp_all add: set_sortWith)
  then show ?case by (simp add: sortWith_def)
qed

lemma compareEntries_finite:
  assumes "dateParse (createdAt a) \<noteq> None" and "dateParse (createdAt b) \<noteq> None"
  shows "compareEntries dateParse lc a b \<le> 0 \<longleftrightarrow>
           the (dateParse (createdAt b)) \<le> the (dateParse (createdAt a))"
  using assms by (auto simp: compareEntries_def)

section \<open>The activity list is complete and sorted, newest first\<close>

text \<open>
  C6. For every list of ticket events and every list of ticket comments,
  \<open>buildTicketActivityEntries\<close> returns exactly one entry per event plus one entry per
  comment (the returned list has as many entries as there are events and comments, and
  holds every entry as often as the events' and comments' entries do), and the list is
  sorted by creation time, latest first, whenever every \<open>created_at\<close> parses to a finite
  time.
\<close>

theorem buildTicketActivityEntries_complete_sorted:
  "length (buildTicketActivityEntries dateParse localeCompare toUpperCase events comments)
     = length events + length comments \<and>
   (\<forall>z. count_list
          (buildTicketActivityEntries dateParse localeCompare toUpperCase events comments) z
        = count_list (map (eventEntry toUpperCase) events) z
          + count_list (map commentEntry comments) z) \<and>
   ((\<forall>e \<in> set events. dateParse (event_created_at e) \<noteq> None) \<and>
    (\<forall>c \<in> set comments. dateParse (comment_created_at c) \<noteq> None) \<longrightarrow>
    sorted_wrt (\<lambda>a b. the (dateParse (createdAt b)) \<le> the (dateParse (createdAt a)))
      (buildTicketActivityEntries dateParse localeCompare toUpperCase events comments))"
proof (intro conjI allI impI)
  show "length (buildTicketActivityEntries dateParse localeCompare toUpperCase events comments)
     = length events + length comments"
    by (simp add: buildTicketActivityEntries_def length_sortWith)
next
  fix z
  show "count_list
          (buildTicketActivityEntries dateParse localeCompare toUpperCase events comments) z
        = count_list (map (eventEntry toUpperCase) events) z
          + count_list (map commentEntry comments) z"
    by (simp add: buildTicketActivityEntries_def count_list_sortWith)
next
  assume finite: "(\<forall>e \<in> set events. dateParse (event_created_at e) \<noteq> None) \<and>
    (\<forall>c \<in> set comments. dateParse (comment_created_at c) \<noteq> None)"
  let ?all = "map (eventEntry toUpperCase) events @ map commentEntry comments"
  have parsed: "\<forall>a \<in> set ?all. dateParse (createdAt a) \<noteq> None"
    using finite by (auto simp: eventEntry_def commentEntry_def)
  have "\<forall>a \<in> set ?all. \<forall>b \<in> set ?all.
          (compareEntries dateParse localeCompare a b \<le> 0 \<longleftrightarrow>
             the (dateParse (createdAt b)) \<le> the (dateParse (createdAt a)))"
    using parsed compareEntries_finite [of dateParse _ _ localeCompare] by blast
  then have "sorted_wrt (\<lambda>a b. the (dateParse (createdAt b)) \<le> the (dateParse (createdAt a)))
               (sortWith (compareEntries dateParse localeCompare) ?all)"
    by (rule sorted_sortWith)
  then show "sorted_wrt (\<lambda>a b. the (dateParse (createdAt b)) \<le> the (dateParse (createdAt a)))
      (buildTicketActivityEntries dateParse localeCompare toUpperCase events comments)"
    by (simp add: buildTicketActivityEntries_def)
qed

theorem buildTicketActivityEntries_complete_sorted_witness:
  "list_all (\<lambda>e. sampleDateParse (event_created_at e) \<noteq> None) sampleEvents \<and>
   list_all (\<lambda>c. sampleDateParse (comment_created_at c) \<noteq> None) sampleComments \<and>
   length (buildTicketActivityEntries sampleDateParse (\<lambda>a b. 0) asciiUpper
             sampleEvents sampleComments) = 3 \<and>
   sorted_wrt (\<lambda>a b. the (sampleDateParse (createdAt b)) \<le> the (sampleDateParse (createdAt a)))
     (buildTicketActivityEntries sampleDateParse (\<lambda>a b. 0) asciiUpper
        sampleEvents sampleComments) \<and>
   map entry_id (buildTicketActivityEntries sampleDateParse (\<lambda>a b. 0) asciiUpper
                   sampleEvents sampleComments) = [''event-11'', ''comment-4'', ''event-10''] \<and>
   map entry_title (buildTicketActivityEntries sampleDateParse (\<lambda>a b. 0) asciiUpper
                   sampleEvents sampleComments)
     = [''Spawn Failed'', ''Comment by Ana'', ''Ticket Moved'']"
proof -
  have ev: "\<forall>e \<in> set sampleEvents. sampleDateParse (event_created_at e) \<noteq> None"
    by (simp add: sampleEvents_def sampleDateParse_def)
  have cm: "\<forall>c \<in> set sampleComments. sampleDateParse (comment_created_at c) \<noteq> None"
    by (simp add: sampleComments_def sampleDateParse_def)
  have len: "length sampleEvents + length sampleComments = 3"
    by (simp add: sampleEvents_def sampleComments_def)
  have ids: "map entry_id (buildTicketActivityEntries sampleDateParse (\<lambda>a b. 0) asciiUpper
                   sampleEvents sampleComments) = [''event-11'', ''comment-4'', ''event-10'']"
    by code_simp
  have titles: "map entry_title (buildTicketActivityEntries sampleDateParse (\<lambda>a b. 0) asciiUpper
                   sampleEvents sampleComments)
     = [''Spawn Failed'', ''Comment by Ana'', ''Ticket Moved'']"
    by code_simp
  from buildTicketActivityEntries_complete_sorted
    [of sampleDateParse "\<lambda>a b. 0" asciiUpper sampleEvents sampleComments] ev cm len ids titles
  show ?thesis
    by (simp add: list_all_iff)
qed

section \<open>The dispatcher never spawns for a ticket that holds a session key\<close>

lemma handleMove_log:
  "list_all (\<lambda>k. k = None) (spawnCalls b) \<Longrightarrow>
   list_all (\<lambda>k. k = None) (spawnCalls (handleMove nd to b))"
  by (simp add: handleMove_def dispatchOnMove_def)

lemma spawnReturns_log: "spawnCalls (spawnReturns reply b) = spawnCalls b"
  by (cases reply) (simp_all add: spawnReturns_def)

lemma applyStep_log:
  "list_all (\<lambda>k. k = None) (spawnCalls b) \<Longrightarrow>
   list_all (\<lambda>k. k = None) (spawnCalls (applyStep nd b s))"
  by (cases s) (simp_all add: handleMove_log spawnReturns_log)

lemma runBackend_log:
  "list_all (\<lambda>k. k = None) (spawnCalls b) \<Longrightarrow>
   list_all (\<lambda>k. k = None) (spawnCalls (runBackend nd steps b))"
  unfolding runBackend_def
  by (induction steps arbitrary: b) (simp_all add: applyStep_log)

lemma handleMove_keyed:
  assumes "st_agent_session_key (stored b) \<noteq> None"
  shows "spawnCalls (handleMove nd to b) = spawnCalls b"
  using assms by (auto simp: handleMove_def dispatchOnMove_def)

text \<open>
  While a move to \<open>to\<close> is retried, a ticket that holds a session key, or whose target is
  not agent-eligible, stays so, and no step adds a spawn call.
\<close>

lemma retry_step:
  assumes "st_agent_session_key (stored b) \<noteq> None \<or> \<not> agentEligible to"
    and "retryOf to s"
  shows "spawnCalls (applyStep nd b s) = spawnCalls b \<and>
         (st_agent_session_key (stored (applyStep nd b s)) \<noteq> None \<or> \<not> agentEligible to)"
proof (cases s)
  case (MoveRequest to')
  with assms(2) have "to' = to" by simp
  with assms(1) MoveRequest show ?thesis
    by (auto simp: handleMove_def dispatchOnMove_def)
next
  case (SpawnReturn reply)
  with assms(1) show ?thesis
    by (cases reply) (auto simp: spawnReturns_def)
qed

lemma retry_run:
  assumes "st_agent_session_key (stored b) \<noteq> None \<or> \<not> agentEligible to"
    and "list_all (retryOf to) steps"
  shows "spawnCalls (runBackend nd steps b) = spawnCalls b"
  using assms unfolding runBackend_def
proof (induction steps arbitrary: b)
  case Nil
  then show ?case by simp
next
  case (Cons s steps)
  from Cons.prems have s: "retryOf to s" and rest: "list_all (retryOf to) steps"
    by simp_all
  from retry_step [OF Cons.prems(1) s, of nd]
  have same: "spawnCalls (applyStep nd b s) = spawnCalls b"
    and inv: "st_agent_session_key (stored (applyStep nd b s)) \<noteq> None \<or> \<not> agentEligible to"
    by simp_all
  from Cons.IH [OF inv rest] same show ?case by simp
qed

text \<open>
  C8. The Automation Dispatcher never issues a spawn call for a ticket that already
  holds an active \<open>agent_session_key\<close>. In every execution (moves and returning spawn
  calls in any order) that starts with a log of calls made without a key, every spawn
  call is issued at a moment when the ticket holds no key; a move of a ticket that holds
  a key issues no spawn call, whatever its target; and when a ticket holds a key, any
  number of retries of the same move, with spawn calls returning in between, issues no
  spawn call at all, so at most one (in fact no) spawn attempt is made while the key is
  set. This holds whether or not the dispatcher runs on a move to the unchanged status.
\<close>

theorem dispatcher_idempotent:
  "(list_all (\<lambda>k. k = None) (spawnCalls b) \<longrightarrow>
      list_all (\<lambda>k. k = None) (spawnCalls (runBackend noopDispatches steps b))) \<and>
   (st_agent_session_key (stored b) \<noteq> None \<longrightarrow>
      spawnCalls (handleMove noopDispatches to b) = spawnCalls b) \<and>
   (st_agent_session_key (stored b) \<noteq> None \<and> list_all (retryOf to) steps \<longrightarrow>
      spawnCalls (runBackend noopDispatches steps b) = spawnCalls b)"
  using runBackend_log [of b noopDispatches steps] handleMove_keyed [of b noopDispatches to]
    retry_run [of b to steps noopDispatches]
  by blast

theorem dispatcher_idempotent_witness:
  "spawnCalls (runBackend False retrySteps freshBackend) = [None] \<and>
   list_all (\<lambda>k. k = None) (spawnCalls (runBackend False retrySteps freshBackend)) \<and>
   st_agent_session_key (stored (runBackend False (take 2 retrySteps) freshBackend))
     = Some ''agent:main:1'' \<and>
   list_all (retryOf Plan) [MoveRequest Plan, MoveRequest Plan] \<and>
   spawnCalls (runBackend False [MoveRequest Plan, MoveRequest Plan]
                 (runBackend False (take 2 retrySteps) freshBackend)) = [None] \<and>
   spawnCalls (handleMove True InProgress (runBackend False (take 2 retrySteps) freshBackend))
     = [None]"
proof -
  let ?b = "runBackend False (take 2 retrySteps) freshBackend"
  have start: "list_all (\<lambda>k. k = None) (spawnCalls freshBackend)"
    by (simp add: freshBackend_def)
  have b: "?b = \<lparr>stored = \<lparr>st_status = Plan, st_agent_session_key = Some ''agent:main:1'',
                             st_archived_at = None\<rparr>,
                  eventLog = [''ticket_moved'', ''spawn_succeeded''], spawnCalls = [None],
                  outstanding = 0\<rparr>"
    by (simp add: runBackend_def retrySteps_def freshBackend_def handleMove_def
        dispatchOnMove_def spawnReturns_def agentEligible_def)
  have key: "st_agent_session_key (stored ?b) \<noteq> None"
    and calls: "spawnCalls ?b = [None]"
    by (simp_all add: b)
  have retries: "list_all (retryOf Plan) [MoveRequest Plan, MoveRequest Plan]"
    by simp
  have whole: "spawnCalls (runBackend False retrySteps freshBackend) = [None]"
    by (simp add: runBackend_def retrySteps_def freshBackend_def handleMove_def
        dispatchOnMove_def spawnReturns_def agentEligible_def)
  from dispatcher_idempotent [of freshBackend False retrySteps] start
  have logged: "list_all (\<lambda>k. k = None) (spawnCalls (runBackend False retrySteps freshBackend))"
    by blast
  from dispatcher_idempotent [of ?b True "[MoveRequest Plan, MoveRequest Plan]" InProgress] key calls
  have one: "spawnCalls (handleMove True InProgress ?b) = [None]"
    by metis
  from dispatcher_idempotent [of ?b False "[MoveRequest Plan, MoveRequest Plan]" Plan]
    key retries calls
  have two: "spawnCalls (runBackend False [MoveRequest Plan, MoveRequest Plan] ?b) = [None]"
    by metis
  from whole logged key retries one two show ?thesis
    by (simp add: b)
qed

end
